theory Spec2Isabelle
  imports Main "HOL-Library.AList"
begin

section \<open>TreeHelper: node assembly, property routing and sub/sup repair\<close>

text \<open>
  A shallow embedding of \<^verbatim>\<open>src/mathjax3-ts/input/tex/TreeHelper.ts\<close>.
  The functions of \<^verbatim>\<open>TreeHelper\<close> are translated one by one and keep their names.
  The classes they call (\<^verbatim>\<open>MmlNode\<close>, \<^verbatim>\<open>MmlFactory\<close>, \<^verbatim>\<open>MmlMo\<close>, ...) are imported by
  the file from \<^verbatim>\<open>core/\<close>, which is not part of the sources at hand: their methods are
  modelled after the specification's description of the Tree API, and what the
  specification leaves open (the arity and the \<^verbatim>\<open>isInferred\<close> getter of each node
  class, the slot indices of \<^verbatim>\<open>MmlMsubsup\<close> and \<^verbatim>\<open>MmlMunderover\<close>, the operator table) is
  a parameter of the model.
\<close>

subsection \<open>Data model\<close>

text \<open>\<^verbatim>\<open>Property = string | number | boolean\<close>, the values of attributes and properties.\<close>

datatype property = Str string | Num int | Bool bool

text \<open>
  A \<^verbatim>\<open>PropertyList\<close> is a JavaScript object used as a dictionary. Its keys are kept in
  insertion order (\<^verbatim>\<open>Object.keys\<close>), so it is an association list; \<^verbatim>\<open>obj[name]\<close> is
  \<^const>\<open>map_of\<close>, and \<^verbatim>\<open>obj[name] = value\<close> is \<^const>\<open>AList.update\<close> (an existing key keeps
  its place, a new key goes last).
\<close>

type_synonym PropertyList = "(string \<times> property) list"

text \<open>The number returned by \<^verbatim>\<open>node.arity\<close>: an integer or JavaScript's \<^verbatim>\<open>Infinity\<close>.\<close>

datatype arity = Finite int | Infinity

text \<open>
  A tree node. \<^verbatim>\<open>Mml\<close> is an element node with its kind, its generic attributes, its
  typed properties, its \<^verbatim>\<open>texClass\<close> field (\<^verbatim>\<open>null\<close> is \<open>None\<close>) and its child slots; a
  slot that holds \<^verbatim>\<open>null\<close>/\<^verbatim>\<open>undefined\<close> (or is a hole of the array) is \<open>None\<close>.
  \<^verbatim>\<open>TextNode\<close> is a text leaf. The parent back-reference is not stored: a node is
  referred to by its position in the tree (see \<open>nodeAt\<close> below).
\<close>

datatype node =
    Mml (kind: string) (attributes: PropertyList) (properties: PropertyList)
        (texClass: "property option") (childNodes: "node option list")
  | TextNode (getText: string)
where
  "kind (TextNode s) = ''text''"
| "attributes (TextNode s) = []"
| "properties (TextNode s) = []"
| "texClass (TextNode s) = None"
| "childNodes (TextNode s) = []"
| "getText (Mml k a p t cs) = []"

datatype error = TypeError | DanglingReference

text \<open>
  What the absent class declarations fix: for each kind, the value of the \<^verbatim>\<open>arity\<close>
  and \<^verbatim>\<open>isInferred\<close> getters of the class the factory registers under that kind, and
  the slot indices \<^verbatim>\<open>base\<close>, \<^verbatim>\<open>sub\<close>, \<^verbatim>\<open>sup\<close> of \<^verbatim>\<open>MmlMsubsup\<close> and \<^verbatim>\<open>base\<close>, \<^verbatim>\<open>under\<close>,
  \<^verbatim>\<open>over\<close> of \<^verbatim>\<open>MmlMunderover\<close>.
\<close>

record env =
  classArity :: "string \<Rightarrow> arity"
  classInferred :: "string \<Rightarrow> bool"
  subsupBase :: nat
  subsupSub :: nat
  subsupSup :: nat
  underoverBase :: nat
  underoverUnder :: nat
  underoverOver :: nat

text \<open>
  The instance used for concrete evaluations: the arities and indices MathJax's node
  classes declare (scripted and fraction-like kinds are fixed, wrappers such as
  \<^verbatim>\<open>msqrt\<close> have arity \<open>-1\<close>, everything else is \<^verbatim>\<open>Infinity\<close>).
\<close>

definition mathjax :: env where
  "mathjax =
     \<lparr> classArity = (\<lambda>k.
          if k \<in> {''msub'', ''msup'', ''munder'', ''mover'', ''mfrac'', ''mroot''} then Finite 2
          else if k \<in> {''msubsup'', ''munderover''} then Finite 3
          else if k \<in> {''msqrt'', ''mstyle'', ''merror'', ''mpadded'', ''mphantom'',
                         ''menclose'', ''mtd'', ''math''} then Finite (- 1)
          else Infinity),
       classInferred = (\<lambda>k. k = ''inferredMrow''),
       subsupBase = 0, subsupSub = 1, subsupSup = 2,
       underoverBase = 0, underoverUnder = 1, underoverOver = 2 \<rparr>"

subsection \<open>The Tree API, as the specification describes it\<close>

text \<open>JavaScript's \<^verbatim>\<open>children[i]\<close>: \<^verbatim>\<open>undefined\<close> out of range.\<close>

definition slot :: "node option list \<Rightarrow> nat \<Rightarrow> node option" where
  "slot children i = (if i < length children then children ! i else None)"

text \<open>Modelled from the spec: \<^verbatim>\<open>MmlFactory.create(kind, attributes, children)\<close>, which
  "constructs a typed tree node" with the given attributes and children, no typed
  properties and no \<^verbatim>\<open>texClass\<close>.\<close>

definition create :: "string \<Rightarrow> PropertyList \<Rightarrow> node option list \<Rightarrow> node" where
  "create k as children = Mml k as [] None children"

text \<open>Modelled from the spec: the getters \<^verbatim>\<open>node.arity\<close> and \<^verbatim>\<open>node.isInferred\<close>. A text
  leaf is not an inferred grouping node.\<close>

definition arity :: "env \<Rightarrow> node \<Rightarrow> arity" where
  "arity E n = classArity E (kind n)"

fun isInferred :: "env \<Rightarrow> node \<Rightarrow> bool" where
  "isInferred E (Mml k a p t cs) = classInferred E k"
| "isInferred E (TextNode s) = False"

text \<open>Modelled from the spec: \<^verbatim>\<open>node.isKind(kind)\<close>, \<^verbatim>\<open>node.setChildren\<close> ("attach the
  children sequence"), \<^verbatim>\<open>node.appendChild\<close> ("append as an additional final child"),
  \<^verbatim>\<open>node.setProperty\<close>, \<^verbatim>\<open>node.attributes.set\<close>, \<^verbatim>\<open>node.getAllProperties\<close> and the
  assignments to the fields \<^verbatim>\<open>texClass\<close> and \<^verbatim>\<open>attributes\<close>. A text leaf has none of
  these slots and is left as it is.\<close>

definition isKind :: "node \<Rightarrow> string \<Rightarrow> bool" where
  "isKind n k = (kind n = k)"

fun setChildren :: "node \<Rightarrow> node option list \<Rightarrow> node" where
  "setChildren (Mml k a p t cs) children = Mml k a p t children"
| "setChildren (TextNode s) children = TextNode s"

fun appendChild :: "node \<Rightarrow> node \<Rightarrow> node" where
  "appendChild (Mml k a p t cs) child = Mml k a p t (cs @ [Some child])"
| "appendChild (TextNode s) child = TextNode s"

fun setProperty :: "node \<Rightarrow> string \<Rightarrow> property \<Rightarrow> node" where
  "setProperty (Mml k a p t cs) name v = Mml k a (AList.update name v p) t cs"
| "setProperty (TextNode s) name v = TextNode s"

fun attributes_set :: "node \<Rightarrow> string \<Rightarrow> property \<Rightarrow> node" where
  "attributes_set (Mml k a p t cs) name v = Mml k (AList.update name v a) p t cs"
| "attributes_set (TextNode s) name v = TextNode s"

fun setTexClass :: "node \<Rightarrow> property \<Rightarrow> node" where
  "setTexClass (Mml k a p t cs) v = Mml k a p (Some v) cs"
| "setTexClass (TextNode s) v = TextNode s"

fun assignAttributes :: "node \<Rightarrow> PropertyList \<Rightarrow> node" where
  "assignAttributes (Mml k a p t cs) as = Mml k as p t cs"
| "assignAttributes (TextNode s) as = TextNode s"

definition getAllProperties :: "node \<Rightarrow> PropertyList" where
  "getAllProperties n = properties n"

subsection \<open>TreeHelper\<close>

text \<open>The allow-list \<^verbatim>\<open>attrs\<close> of typed property names.\<close>

definition attrs :: "string list" where
  "attrs = [''autoOP'', ''fnOP'', ''movesupsub'', ''subsupOK'', ''texprimestyle'',
            ''useHeight'', ''variantForm'', ''withDelims'', ''open'', ''close'']"

definition getChildren :: "node \<Rightarrow> node option list" where
  "getChildren n = childNodes n"

definition isType :: "node \<Rightarrow> string \<Rightarrow> bool" where
  "isType n k = isKind n k"

text \<open>The body of the loop of \<^verbatim>\<open>setProperties\<close>, for one key and its value.\<close>

definition setProperties_step :: "node \<Rightarrow> string \<Rightarrow> property \<Rightarrow> node" where
  "setProperties_step node name v =
     (if name = ''texClass'' then setTexClass node v
      else if name = ''movablelimits'' then
        (let node1 = setProperty node ''movablelimits'' v
         in if isKind node1 ''mo'' \<or> isKind node1 ''mstyle''
            then attributes_set node1 ''movablelimits'' v else node1)
      else if name = ''inferred'' then node
      else if name \<in> set attrs then setProperty node name v
      else attributes_set node name v)"

text \<open>\<^verbatim>\<open>for (const name of Object.keys(properties)) { let value = properties[name]; ... }\<close>\<close>

fun setProperties_loop :: "string list \<Rightarrow> PropertyList \<Rightarrow> node \<Rightarrow> node" where
  "setProperties_loop [] ps node = node"
| "setProperties_loop (name # names) ps node =
     setProperties_loop names ps
       (case map_of ps name of
          Some v \<Rightarrow> setProperties_step node name v
        | None \<Rightarrow> node)"

definition setProperties :: "node \<Rightarrow> PropertyList \<Rightarrow> node" where
  "setProperties node ps = setProperties_loop (map fst ps) ps node"

definition copyAttributes :: "node \<Rightarrow> node \<Rightarrow> node" where
  "copyAttributes oldNode newNode =
     setProperties (assignAttributes newNode (attributes oldNode)) (getAllProperties oldNode)"

text \<open>
  The loop of the fixed-arity branch of \<^verbatim>\<open>createNode\<close>,
  \<^verbatim>\<open>for (let i = 0, child; child = children[i]; i++)\<close>: it ends at the first slot that is
  absent, or at the end of the array. \<open>cleanChild\<close> is what its body pushes.
\<close>

definition cleanChild :: "env \<Rightarrow> node \<Rightarrow> node" where
  "cleanChild E child =
     (if isInferred E child
      then copyAttributes child (create ''mrow'' [] (getChildren child))
      else child)"

fun cleanChildren :: "env \<Rightarrow> node option list \<Rightarrow> node option list" where
  "cleanChildren E [] = []"
| "cleanChildren E (None # children) = []"
| "cleanChildren E (Some child # children) =
     Some (cleanChild E child) # cleanChildren E children"

text \<open>
  \<^verbatim>\<open>createNode\<close>. In the variadic branch \<^verbatim>\<open>children[0].isInferred\<close> is read when the
  array has length one; on an absent entry that read throws a \<^verbatim>\<open>TypeError\<close>.
\<close>

definition variadic :: "arity \<Rightarrow> bool" where
  "variadic a = (a = Infinity \<or> a = Finite (- 1))"

definition createNode ::
  "env \<Rightarrow> string \<Rightarrow> node option list \<Rightarrow> PropertyList \<Rightarrow> node option \<Rightarrow> error + node" where
  "createNode E k children bag txt =
     (let node = create k [] [];
          ar = arity E node
      in case (if variadic ar then
                 (if length children = 1 then
                    (case children ! 0 of
                       None \<Rightarrow> Inl TypeError
                     | Some child \<Rightarrow>
                         if isInferred E child
                         then Inr (setChildren node (getChildren child))
                         else Inr (setChildren node children))
                  else Inr (setChildren node children))
               else Inr (setChildren node (cleanChildren E children)))
         of Inl e \<Rightarrow> Inl e
          | Inr node1 \<Rightarrow>
              Inr (setProperties
                     (case txt of None \<Rightarrow> node1 | Some t \<Rightarrow> appendChild node1 t) bag))"

subsubsection \<open>cleanSubSup\<close>

text \<open>
  A reference to a node object is modelled by the node's position: the list of child
  indices leading from the root to it. The root (the node without parent) is \<open>[]\<close>;
  the parent of the node at \<open>ref @ [i]\<close> is the node at \<open>ref\<close>, which holds it in slot
  \<open>i\<close>. \<open>nodeAt\<close> dereferences a position in the current tree. A tree owns its
  nodes, no node object occurs at two positions, so a position identifies the object
  and the slot of its parent that \<^verbatim>\<open>replaceChild\<close> finds for it. The node passed to
  \<^verbatim>\<open>cleanSubSup\<close> is the root of its tree: it has no parent.
\<close>

fun nodeAt :: "node \<Rightarrow> nat list \<Rightarrow> node option" where
  "nodeAt n [] = Some n"
| "nodeAt n (i # ref) =
     (case slot (childNodes n) i of None \<Rightarrow> None | Some c \<Rightarrow> nodeAt c ref)"

text \<open>Modelled from the spec: \<^verbatim>\<open>node.walkTree(func, data)\<close>, the "tree traversal with
  pre-order visitor callback": the node first, then its present children from left to
  right. The callback also receives the position of the node it is called on.\<close>

fun walkTree :: "(node \<Rightarrow> nat list \<Rightarrow> 'd \<Rightarrow> 'd) \<Rightarrow> node \<Rightarrow> nat list \<Rightarrow> 'd \<Rightarrow> 'd"
  and walkChildren ::
    "(node \<Rightarrow> nat list \<Rightarrow> 'd \<Rightarrow> 'd) \<Rightarrow> node option list \<Rightarrow> nat list \<Rightarrow> nat \<Rightarrow> 'd \<Rightarrow> 'd" where
  "walkTree func (Mml k a p t cs) ref d =
     walkChildren func cs ref 0 (func (Mml k a p t cs) ref d)"
| "walkTree func (TextNode s) ref d = func (TextNode s) ref d"
| "walkChildren func [] ref i d = d"
| "walkChildren func (None # cs) ref i d = walkChildren func cs ref (Suc i) d"
| "walkChildren func (Some c # cs) ref i d =
     walkChildren func cs ref (Suc i) (walkTree func c (ref @ [i]) d)"

text \<open>Modelled from the spec: \<^verbatim>\<open>parent.replaceChild(newNode, n)\<close> for the parent of the
  node at position \<open>ref\<close>: "replace the old node with the new node in the parent's
  child slot". The tree is rebuilt along the path; every other slot is kept.\<close>

fun replaceAt :: "node \<Rightarrow> nat list \<Rightarrow> node \<Rightarrow> node" where
  "replaceAt n [] newNode = newNode"
| "replaceAt (Mml k a p t cs) (i # ref) newNode =
     Mml k a p t
       (case slot cs i of
          None \<Rightarrow> cs
        | Some c \<Rightarrow> cs[i := Some (replaceAt c ref newNode)])"
| "replaceAt (TextNode s) (i # ref) newNode = TextNode s"

text \<open>The test of the callback that \<^verbatim>\<open>cleanSubSup\<close> passes to \<^verbatim>\<open>walkTree\<close>, and the
  callback itself (\<^verbatim>\<open>d.unshift(n)\<close> puts the node in front).\<close>

definition incomplete :: "env \<Rightarrow> node \<Rightarrow> bool" where
  "incomplete E n =
     (let children = childNodes n
      in (isKind n ''msubsup'' \<and>
            (slot children (subsupSub E) = None \<or> slot children (subsupSup E) = None)) \<or>
         (isKind n ''munderover'' \<and>
            (slot children (underoverUnder E) = None \<or>
             slot children (underoverOver E) = None)))"

definition collect :: "env \<Rightarrow> node \<Rightarrow> nat list \<Rightarrow> nat list list \<Rightarrow> nat list list" where
  "collect E n ref d = (if incomplete E n then ref # d else d)"

text \<open>The body of the loop \<^verbatim>\<open>for (const n of rewrite)\<close> up to \<^verbatim>\<open>copyAttributes\<close>: the
  node that replaces \<open>n\<close>.\<close>

definition newNode :: "env \<Rightarrow> node \<Rightarrow> error + node" where
  "newNode E n =
     (let children = childNodes n
      in case (if isKind n ''msubsup'' then
                 (if slot children (subsupSub E) \<noteq> None
                  then createNode E ''msub''
                         [slot children (subsupBase E), slot children (subsupSub E)] [] None
                  else createNode E ''msup''
                         [slot children (subsupBase E), slot children (subsupSup E)] [] None)
               else
                 (if slot children (underoverUnder E) \<noteq> None
                  then createNode E ''munder''
                         [slot children (underoverBase E), slot children (underoverUnder E)]
                         [] None
                  else createNode E ''mover''
                         [slot children (underoverBase E), slot children (underoverOver E)]
                         [] None))
         of Inl e \<Rightarrow> Inl e
          | Inr created \<Rightarrow> Inr (copyAttributes n created))"

text \<open>The loop over the collected references, and the rest of its body: the new node
  takes the old one's slot in the parent, or becomes the root when there is no
  parent. A reference that leads nowhere would be \<open>DanglingReference\<close>; the theorems
  below show that this does not arise.\<close>

fun rewriteLoop :: "env \<Rightarrow> nat list list \<Rightarrow> node \<Rightarrow> error + node" where
  "rewriteLoop E [] node = Inr node"
| "rewriteLoop E (ref # refs) node =
     (case nodeAt node ref of
        None \<Rightarrow> Inl DanglingReference
      | Some n \<Rightarrow>
          (case newNode E n of
             Inl e \<Rightarrow> Inl e
           | Inr new \<Rightarrow>
               rewriteLoop E refs (if ref \<noteq> [] then replaceAt node ref new else new)))"

definition cleanSubSup :: "env \<Rightarrow> node \<Rightarrow> error + node" where
  "cleanSubSup E node = rewriteLoop E (walkTree (collect E) node [] []) node"

subsubsection \<open>getForm\<close>

text \<open>What \<^verbatim>\<open>MmlMo\<close> provides: the candidate forms of an operator node, its literal text,
  and the static table \<^verbatim>\<open>OPTABLE\<close>, indexed by form and then by text.\<close>

record ('form, 'opdef) mo_api =
  getForms :: "node \<Rightarrow> 'form list"
  moText :: "node \<Rightarrow> string"
  OPTABLE :: "'form \<Rightarrow> string \<Rightarrow> 'opdef option"

fun getForm_loop :: "('form, 'opdef) mo_api \<Rightarrow> node \<Rightarrow> 'form list \<Rightarrow> 'opdef option" where
  "getForm_loop M mo [] = None"
| "getForm_loop M mo (form # forms) =
     (case OPTABLE M form (moText M mo) of
        Some symbol \<Rightarrow> Some symbol
      | None \<Rightarrow> getForm_loop M mo forms)"

definition getForm :: "('form, 'opdef) mo_api \<Rightarrow> node \<Rightarrow> 'opdef option" where
  "getForm M node =
     (if \<not> isType node ''mo'' then None else getForm_loop M node (getForms M node))"

subsection \<open>Notions used to state the theorems\<close>

text \<open>
  The names \<^verbatim>\<open>setProperties\<close> stores as typed properties (\<^verbatim>\<open>movablelimits\<close> and the
  allow-list), and the names it stores as generic attributes of a node of kind \<open>k\<close>
  (\<^verbatim>\<open>movablelimits\<close> on \<^verbatim>\<open>mo\<close> and \<^verbatim>\<open>mstyle\<close>, and every name that no earlier branch takes).
\<close>

definition typedName :: "string \<Rightarrow> bool" where
  "typedName name = (name = ''movablelimits'' \<or> name \<in> set attrs)"

definition attributeName :: "string \<Rightarrow> string \<Rightarrow> bool" where
  "attributeName k name =
     (if name = ''movablelimits'' then k = ''mo'' \<or> k = ''mstyle''
      else name \<noteq> ''texClass'' \<and> name \<noteq> ''inferred'' \<and> name \<notin> set attrs)"

text \<open>The data model's invariant on the typed-property map of a node: its keys are
  names of typed properties. \<^verbatim>\<open>setProperties\<close> writes no other key into it.\<close>

definition typedProperties :: "node \<Rightarrow> bool" where
  "typedProperties n = (\<forall>name \<in> set (map fst (properties n)). typedName name)"

text \<open>The child that \<^verbatim>\<open>createNode\<close> appends for its optional argument \<^verbatim>\<open>text\<close>.\<close>

definition trailing :: "node option \<Rightarrow> node option list" where
  "trailing txt = (case txt of None \<Rightarrow> [] | Some t \<Rightarrow> [Some t])"

text \<open>
  The repair pass as the specification words it: the tree is walked bottom-up, and a
  node that the traversal collects is replaced, in its parent's slot or as the root,
  by the node built for it. \<open>rewriteOne\<close> is that replacement for one node,
  \<open>bottomUp f\<close> applies \<open>f\<close> to every node after its children.
\<close>

definition rewriteOne :: "env \<Rightarrow> node \<Rightarrow> node" where
  "rewriteOne E n =
     (if incomplete E n then (case newNode E n of Inr m \<Rightarrow> m | Inl e \<Rightarrow> n) else n)"

fun bottomUp :: "(node \<Rightarrow> node) \<Rightarrow> node \<Rightarrow> node" where
  "bottomUp f (Mml k a p t cs) = f (Mml k a p t (map (map_option (bottomUp f)) cs))"
| "bottomUp f (TextNode s) = f (TextNode s)"

text \<open>A tree in which the traversal of \<^verbatim>\<open>cleanSubSup\<close> finds nothing to collect.\<close>

fun complete :: "env \<Rightarrow> node \<Rightarrow> bool" where
  "complete E (Mml k a p t cs) =
     (\<not> incomplete E (Mml k a p t cs) \<and>
      (\<forall>c \<in> set cs. \<forall>n \<in> set_option c. complete E n))"
| "complete E (TextNode s) = True"

section \<open>Properties\<close>

subsection \<open>setProperties\<close>

text \<open>
  One step of the loop changes the three stores of an element node as follows; the
  loop keeps the kind and the children, and its effect on each key can be read off
  the bag.
\<close>

lemma attrs_special:
  "''texClass'' \<notin> set attrs" "''movablelimits'' \<notin> set attrs" "''inferred'' \<notin> set attrs"
  by (simp_all add: attrs_def)

lemma setProperties_step_Mml:
  "setProperties_step (Mml k a p t cs) name v =
     Mml k (if attributeName k name then AList.update name v a else a)
           (if typedName name then AList.update name v p else p)
           (if name = ''texClass'' then Some v else t) cs"
  using attrs_special
  by (auto simp add: setProperties_step_def typedName_def attributeName_def isKind_def Let_def)

lemma setProperties_loop_Mml:
  "\<exists>a' p' t'. setProperties_loop ns ps (Mml k a p t cs) = Mml k a' p' t' cs"
  by (induction ns arbitrary: a p t) (auto simp add: setProperties_step_Mml split: option.splits)

lemma properties_setProperties_loop:
  "map_of (properties (setProperties_loop ns ps (Mml k a p t cs))) x =
     (if x \<in> set ns \<and> typedName x \<and> map_of ps x \<noteq> None then map_of ps x else map_of p x)"
  by (induction ns arbitrary: a p t)
     (auto simp add: setProperties_step_Mml update_conv' split: option.splits)

lemma attributes_setProperties_loop:
  "map_of (attributes (setProperties_loop ns ps (Mml k a p t cs))) x =
     (if x \<in> set ns \<and> attributeName k x \<and> map_of ps x \<noteq> None then map_of ps x else map_of a x)"
  by (induction ns arbitrary: a p t)
     (auto simp add: setProperties_step_Mml update_conv' split: option.splits)

lemma texClass_setProperties_loop:
  "texClass (setProperties_loop ns ps (Mml k a p t cs)) =
     (if ''texClass'' \<in> set ns \<and> map_of ps ''texClass'' \<noteq> None
      then map_of ps ''texClass'' else t)"
  by (induction ns arbitrary: a p t)
     (auto simp add: setProperties_step_Mml split: option.splits)

lemma attributes_setProperties_loop_same:
  "\<forall>x \<in> set ns. \<not> attributeName k x \<Longrightarrow>
   attributes (setProperties_loop ns ps (Mml k a p t cs)) = a"
  by (induction ns arbitrary: a p t)
     (auto simp add: setProperties_step_Mml split: option.splits)

lemma kind_setProperties: "kind (setProperties n ps) = kind n"
proof (cases n)
  case (Mml k a p t cs)
  then show ?thesis
    using setProperties_loop_Mml [of "map fst ps" ps k a p t cs]
    by (auto simp add: setProperties_def)
next
  case (TextNode s)
  have "setProperties_loop ns ps (TextNode s) = TextNode s" for ns
    by (induction ns) (auto simp add: setProperties_step_def isKind_def split: option.splits)
  then show ?thesis by (simp add: TextNode setProperties_def)
qed

lemma childNodes_setProperties: "childNodes (setProperties n ps) = childNodes n"
proof (cases n)
  case (Mml k a p t cs)
  then show ?thesis
    using setProperties_loop_Mml [of "map fst ps" ps k a p t cs]
    by (auto simp add: setProperties_def)
next
  case (TextNode s)
  have "setProperties_loop ns ps (TextNode s) = TextNode s" for ns
    by (induction ns) (auto simp add: setProperties_step_def isKind_def split: option.splits)
  then show ?thesis by (simp add: TextNode setProperties_def)
qed

lemma setProperties_Nil [simp]: "setProperties n [] = n"
  by (simp add: setProperties_def)

text \<open>
  Claim C6. When the metadata bag has the key \<^verbatim>\<open>movablelimits\<close> with value \<open>v\<close>,
  \<^verbatim>\<open>setProperties\<close> leaves an element node with the typed property \<^verbatim>\<open>movablelimits = v\<close>; the
  generic attribute \<^verbatim>\<open>movablelimits\<close> is \<open>v\<close> on a node of kind \<^verbatim>\<open>mo\<close> or \<^verbatim>\<open>mstyle\<close>, and
  on a node of any other kind it is what it was before the call (absent, if the node
  had none).
\<close>

theorem setProperties_movablelimits:
  assumes "map_of bag ''movablelimits'' = Some v"
  shows "map_of (properties (setProperties (Mml k a p t cs) bag)) ''movablelimits'' = Some v \<and>
         map_of (attributes (setProperties (Mml k a p t cs) bag)) ''movablelimits'' =
           (if k = ''mo'' \<or> k = ''mstyle'' then Some v else map_of a ''movablelimits'')"
proof -
  have key: "''movablelimits'' \<in> set (map fst bag)"
    using assms by (metis map_of_eq_None_iff option.distinct(1) set_map)
  show ?thesis
    using key assms
    by (simp add: setProperties_def properties_setProperties_loop
        attributes_setProperties_loop typedName_def attributeName_def)
qed

text \<open>
  On an \<^verbatim>\<open>mfrac\<close> node only the typed property is set; on an \<^verbatim>\<open>mo\<close> node the
  attribute is set as well.
\<close>

theorem setProperties_movablelimits_witness:
  "map_of [(''movablelimits'', Bool True)] ''movablelimits'' = Some (Bool True) \<and>
   map_of (properties (setProperties (Mml ''mfrac'' [] [] None [])
                         [(''movablelimits'', Bool True)])) ''movablelimits'' = Some (Bool True) \<and>
   map_of (attributes (setProperties (Mml ''mfrac'' [] [] None [])
                         [(''movablelimits'', Bool True)])) ''movablelimits'' = None \<and>
   map_of (attributes (setProperties (Mml ''mo'' [] [] None [])
                         [(''movablelimits'', Bool True)])) ''movablelimits'' = Some (Bool True)"
  using setProperties_movablelimits [of "[(''movablelimits'', Bool True)]" "Bool True" "''mfrac''" "[]" "[]" None "[]"]
    setProperties_movablelimits [of "[(''movablelimits'', Bool True)]" "Bool True" "''mo''" "[]" "[]" None "[]"]
  by simp

subsection \<open>copyAttributes\<close>

text \<open>
  \<^verbatim>\<open>copyAttributes\<close> hands the attribute map over and sends the typed properties of
  the old node through \<^verbatim>\<open>setProperties\<close>. A property with a typed name arrives as a
  typed property; the field \<^verbatim>\<open>texClass\<close> of the new node is set from a property named
  \<^verbatim>\<open>texClass\<close>, not from the old node's field.
\<close>

lemma copyAttributes_Mml:
  "\<exists>a' p' t'. copyAttributes old (Mml k a p t cs) = Mml k a' p' t' cs"
  using setProperties_loop_Mml
  by (simp add: copyAttributes_def setProperties_def)

lemma kind_copyAttributes: "kind (copyAttributes old (Mml k a p t cs)) = k"
  using copyAttributes_Mml [of old k a p t cs] by auto

lemma childNodes_copyAttributes: "childNodes (copyAttributes old (Mml k a p t cs)) = cs"
  using copyAttributes_Mml [of old k a p t cs] by auto

lemma map_of_typed:
  assumes "typedProperties old" and "map_of (properties old) x = Some v"
  shows "x \<in> set (map fst (properties old)) \<and> typedName x"
proof -
  have "x \<in> set (map fst (properties old))"
    using assms(2) by (metis map_of_eq_None_iff option.distinct(1) set_map)
  then show ?thesis using assms(1) by (auto simp add: typedProperties_def)
qed

lemma copyAttributes_typed:
  assumes "typedProperties old" and "k \<noteq> ''mo''" and "k \<noteq> ''mstyle''"
  shows "attributes (copyAttributes old (Mml k a [] t cs)) = attributes old"
    and "map_of (properties (copyAttributes old (Mml k a [] t cs))) = map_of (properties old)"
    and "texClass (copyAttributes old (Mml k a [] t cs)) = t"
proof -
  have na: "\<forall>x \<in> set (map fst (properties old)). \<not> attributeName k x"
    using assms attrs_special
    by (auto simp add: typedProperties_def typedName_def attributeName_def)
  show "attributes (copyAttributes old (Mml k a [] t cs)) = attributes old"
    using attributes_setProperties_loop_same [OF na]
    by (simp add: copyAttributes_def setProperties_def getAllProperties_def)
  show "map_of (properties (copyAttributes old (Mml k a [] t cs))) = map_of (properties old)"
  proof (rule ext)
    fix x
    show "map_of (properties (copyAttributes old (Mml k a [] t cs))) x = map_of (properties old) x"
    proof (cases "map_of (properties old) x")
      case None
      then show ?thesis
        by (simp add: copyAttributes_def setProperties_def getAllProperties_def
            properties_setProperties_loop)
    next
      case (Some v)
      then show ?thesis
        using map_of_typed [OF assms(1) Some]
        by (simp add: copyAttributes_def setProperties_def getAllProperties_def
            properties_setProperties_loop)
    qed
  qed
  have "''texClass'' \<notin> set (map fst (properties old))"
    using assms(1) attrs_special by (auto simp add: typedProperties_def typedName_def)
  then show "texClass (copyAttributes old (Mml k a [] t cs)) = t"
    by (simp add: copyAttributes_def setProperties_def getAllProperties_def
        texClass_setProperties_loop)
qed

lemma copyAttributes_typedName:
  assumes "typedName x"
  shows "map_of (properties (copyAttributes old (Mml k a [] t cs))) x = map_of (properties old) x"
proof (cases "map_of (properties old) x")
  case None
  then show ?thesis
    by (simp add: copyAttributes_def setProperties_def getAllProperties_def
        properties_setProperties_loop)
next
  case (Some v)
  then have "x \<in> set (map fst (properties old))"
    by (metis map_of_eq_None_iff option.distinct(1) set_map)
  then show ?thesis
    using Some assms
    by (simp add: copyAttributes_def setProperties_def getAllProperties_def
        properties_setProperties_loop)
qed

lemma copyAttributes_texClass:
  "texClass (copyAttributes old (Mml k a p None cs)) = map_of (properties old) ''texClass''"
proof (cases "map_of (properties old) ''texClass''")
  case None
  then show ?thesis
    by (simp add: copyAttributes_def setProperties_def getAllProperties_def
        texClass_setProperties_loop)
next
  case (Some v)
  then have "''texClass'' \<in> set (map fst (properties old))"
    by (metis map_of_eq_None_iff option.distinct(1) set_map)
  then show ?thesis
    using Some
    by (simp add: copyAttributes_def setProperties_def getAllProperties_def
        texClass_setProperties_loop)
qed

subsection \<open>createNode\<close>

lemma createNode_fixed:
  "\<not> variadic (classArity E k) \<Longrightarrow>
   createNode E k children bag txt =
     Inr (setProperties (Mml k [] [] None (cleanChildren E children @ trailing txt)) bag)"
  by (simp add: createNode_def create_def arity_def trailing_def split: option.splits)

lemma createNode_variadic:
  "variadic (classArity E k) \<Longrightarrow>
   createNode E k (map Some ns) bag txt =
     Inr (setProperties
            (Mml k [] [] None
               ((if length ns = 1 \<and> isInferred E (hd ns) then getChildren (hd ns)
                 else map Some ns) @ trailing txt)) bag)"
  by (cases ns)
     (auto simp add: createNode_def create_def arity_def trailing_def Let_def
           split: option.splits)

lemma createNode_variadic_absent:
  "variadic (classArity E k) \<Longrightarrow> createNode E k [None] bag txt = Inl TypeError"
  by (simp add: createNode_def create_def arity_def)

lemma cleanChildren_present: "cleanChildren E (map Some ns) = map (\<lambda>c. Some (cleanChild E c)) ns"
  by (induction ns) simp_all

lemma cleanChildren_append_None:
  "cleanChildren E (map Some ns @ None # rest) = map (\<lambda>c. Some (cleanChild E c)) ns"
  by (induction ns) simp_all

lemma length_cleanChildren:
  "length (cleanChildren E children) = length (takeWhile (\<lambda>c. c \<noteq> None) children)"
  by (induction E children rule: cleanChildren.induct) simp_all

lemma cleanChild_plain: "\<not> isInferred E c \<Longrightarrow> cleanChild E c = c"
  by (simp add: cleanChild_def)

lemma cleanChild_inferred:
  assumes "isInferred E c"
  shows "kind (cleanChild E c) = ''mrow''"
    and "childNodes (cleanChild E c) = childNodes c"
    and "typedName x \<Longrightarrow> map_of (properties (cleanChild E c)) x = map_of (properties c) x"
    and "typedProperties c \<Longrightarrow> attributes (cleanChild E c) = attributes c"
    and "typedProperties c \<Longrightarrow> map_of (properties (cleanChild E c)) = map_of (properties c)"
  using assms
  by (simp_all add: cleanChild_def create_def getChildren_def kind_copyAttributes
      childNodes_copyAttributes copyAttributes_typed copyAttributes_typedName)

lemma createNode_pair: "\<exists>r. createNode E k [x, y] bag txt = Inr r"
  by (simp add: createNode_def Let_def)

lemma createNode_pair_eq:
  "createNode E k [x, y] [] None =
     Inr (Mml k [] [] None (if variadic (classArity E k) then [x, y] else cleanChildren E [x, y]))"
  by (simp add: createNode_def create_def arity_def)

text \<open>
  Claim C4 says that for a kind of variadic arity every supplied children sequence
  other than a single inferred node is attached unchanged. On the sequence that
  consists of one absent entry, \<^verbatim>\<open>children.length === 1 && children[0].isInferred\<close>
  reads a property of \<^verbatim>\<open>undefined\<close>: \<^verbatim>\<open>createNode\<close> throws and returns no node.
\<close>

theorem createNode_variadic_absent_counterexample:
  "variadic (classArity mathjax ''mrow'') \<and>
   createNode mathjax ''mrow'' [None] [] None = Inl TypeError"
  by (simp add: mathjax_def variadic_def createNode_def create_def arity_def)

text \<open>
  Claim C4, amended. For a kind of variadic arity (\<^verbatim>\<open>Infinity\<close> or \<open>-1\<close>) and every
  supplied children sequence other than the one that consists of a single absent
  entry, \<^verbatim>\<open>createNode\<close> returns a node: when the sequence is a single inferred node,
  the node's children are that inferred node's own children; with any other
  sequence they are the supplied sequence, unchanged. In both cases the trailing
  text, when one is given, follows. On the single absent entry \<^verbatim>\<open>createNode\<close> throws
  a \<^verbatim>\<open>TypeError\<close>.
\<close>

theorem createNode_variadic_children:
  assumes "variadic (classArity E k)" and "children \<noteq> [None]"
  shows "(\<exists>r. createNode E k children bag txt = Inr r \<and>
            (\<forall>c. children = [Some c] \<and> isInferred E c \<longrightarrow>
                 childNodes r = childNodes c @ trailing txt) \<and>
            ((\<forall>c. children = [Some c] \<longrightarrow> \<not> isInferred E c) \<longrightarrow>
                 childNodes r = children @ trailing txt)) \<and>
         createNode E k [None] bag txt = Inl TypeError"
proof -
  have "\<exists>r. createNode E k children bag txt = Inr r \<and>
            (\<forall>c. children = [Some c] \<and> isInferred E c \<longrightarrow>
                 childNodes r = childNodes c @ trailing txt) \<and>
            ((\<forall>c. children = [Some c] \<longrightarrow> \<not> isInferred E c) \<longrightarrow>
                 childNodes r = children @ trailing txt)"
  proof (cases children)
    case Nil
    then show ?thesis
      using assms(1)
      by (simp add: createNode_def arity_def create_def Let_def childNodes_setProperties trailing_def
          split: option.splits)
  next
    case (Cons x xs)
    show ?thesis
    proof (cases xs)
      case Nil
      then obtain c where c: "children = [Some c]"
        using Cons assms(2) by (cases x) simp_all
      show ?thesis
        using assms(1)
        by (simp add: c createNode_def arity_def create_def Let_def childNodes_setProperties trailing_def
            getChildren_def split: option.splits)
    next
      case (Cons y ys)
      then show ?thesis
        using assms(1) \<open>children = x # xs\<close>
        by (simp add: createNode_def arity_def create_def Let_def childNodes_setProperties trailing_def
            split: option.splits)
    qed
  qed
  then show ?thesis
    using createNode_variadic_absent [OF assms(1)] by simp
qed

text \<open>
  A \<^verbatim>\<open>mrow\<close> (arity \<^verbatim>\<open>Infinity\<close>) built from one inferred row takes over its two
  children.
\<close>

theorem createNode_variadic_children_witness:
  "variadic (classArity mathjax ''mrow'') \<and>
   [Some (Mml ''inferredMrow'' [] [] None [Some (TextNode ''a''), Some (TextNode ''b'')])] \<noteq> [None] \<and>
   isInferred mathjax (Mml ''inferredMrow'' [] [] None [Some (TextNode ''a''), Some (TextNode ''b'')]) \<and>
   (\<exists>r. createNode mathjax ''mrow''
          [Some (Mml ''inferredMrow'' [] [] None [Some (TextNode ''a''), Some (TextNode ''b'')])]
          [] None = Inr r \<and>
        childNodes r = [Some (TextNode ''a''), Some (TextNode ''b'')])"
proof -
  let ?c = "Mml ''inferredMrow'' [] [] None [Some (TextNode ''a''), Some (TextNode ''b'')]"
  have h: "variadic (classArity mathjax ''mrow'')"
    by (simp add: mathjax_def variadic_def)
  have n: "[Some ?c] \<noteq> [None]" by simp
  have i: "isInferred mathjax ?c" by (simp add: mathjax_def)
  show ?thesis
    using h i createNode_variadic_children [OF h n, of "[]" None]
    by (auto simp add: trailing_def)
qed

lemma cleanChildren_takeWhile:
  "cleanChildren E children =
     map (map_option (cleanChild E)) (takeWhile (\<lambda>c. c \<noteq> None) children)"
  by (induction E children rule: cleanChildren.induct) simp_all

lemma copyAttributes_untyped:
  assumes "\<not> typedName x"
  shows "map_of (properties (copyAttributes old (Mml k a [] t cs))) x = None"
  using assms
  by (simp add: copyAttributes_def setProperties_def getAllProperties_def
      properties_setProperties_loop)

lemma copyAttributes_attributes:
  "map_of (attributes (copyAttributes old (Mml k a p t cs))) x =
     (if map_of (properties old) x \<noteq> None \<and> attributeName k x
      then map_of (properties old) x else map_of (attributes old) x)"
proof (cases "map_of (properties old) x")
  case None
  then show ?thesis
    by (simp add: copyAttributes_def setProperties_def getAllProperties_def
        attributes_setProperties_loop)
next
  case (Some v)
  then have "x \<in> set (map fst (properties old))"
    by (metis map_of_eq_None_iff option.distinct(1) set_map)
  then show ?thesis
    using Some
    by (simp add: copyAttributes_def setProperties_def getAllProperties_def
        attributes_setProperties_loop)
qed

lemma cleanChild_inferred_general:
  assumes "isInferred E c"
  shows "\<not> typedName x \<Longrightarrow> map_of (properties (cleanChild E c)) x = None"
    and "map_of (attributes (cleanChild E c)) x =
           (if map_of (properties c) x \<noteq> None \<and> attributeName ''mrow'' x
            then map_of (properties c) x else map_of (attributes c) x)"
  using assms
  by (simp_all add: cleanChild_def create_def copyAttributes_untyped copyAttributes_attributes)

text \<open>
  Claim C5 says that for a kind of fixed arity every supplied inferred child is
  replaced by an \<^verbatim>\<open>mrow\<close> with the inferred node's attributes and typed properties, and
  every other supplied child is attached in its position. Given an inferred row with
  the attribute \<^verbatim>\<open>foo = a\<close> and a property \<^verbatim>\<open>foo = b\<close>, then an absent entry, then an
  \<^verbatim>\<open>mn\<close>, an \<^verbatim>\<open>mfrac\<close> comes back with one child: an \<^verbatim>\<open>mrow\<close> whose attribute \<^verbatim>\<open>foo\<close> is
  \<open>b\<close> and which has no property \<^verbatim>\<open>foo\<close>; the \<^verbatim>\<open>mn\<close> is not attached.
\<close>

theorem createNode_fixed_rewrap_counterexample:
  "\<not> variadic (classArity mathjax ''mfrac'') \<and>
   isInferred mathjax
     (Mml ''inferredMrow'' [(''foo'', Str ''a'')] [(''foo'', Str ''b'')] None
        [Some (TextNode ''x'')]) \<and>
   createNode mathjax ''mfrac''
     [Some (Mml ''inferredMrow'' [(''foo'', Str ''a'')] [(''foo'', Str ''b'')] None
              [Some (TextNode ''x'')]),
      None,
      Some (Mml ''mn'' [] [] None [Some (TextNode ''2'')])] [] None =
   Inr (Mml ''mfrac'' [] [] None
          [Some (Mml ''mrow'' [(''foo'', Str ''b'')] [] None [Some (TextNode ''x'')])])"
  by (simp add: mathjax_def variadic_def createNode_def create_def arity_def cleanChild_def
      copyAttributes_def getAllProperties_def getChildren_def setProperties_def
      setProperties_step_def attrs_def isKind_def)

text \<open>
  Claim C5, amended. For a kind of fixed arity and every supplied children sequence,
  \<^verbatim>\<open>createNode\<close> returns a node whose children are, position by position,
  \<open>cleanChild\<close> of the supplied children that precede the first absent entry (all of
  them when no entry is absent; what follows an absent entry is not attached),
  followed by the trailing text when one is given. A child \<open>c\<close> that is not inferred
  is attached unchanged. For an inferred \<open>c\<close> the attached node is of kind \<^verbatim>\<open>mrow\<close> and
  has the children of \<open>c\<close>; its typed properties are those properties of \<open>c\<close>
  whose name is typed (\<^verbatim>\<open>movablelimits\<close> or in the allow-list), with the same values,
  and it has no other property; its attributes are those of \<open>c\<close>, except that each
  property of \<open>c\<close> under a name that is neither typed nor \<^verbatim>\<open>texClass\<close> nor \<^verbatim>\<open>inferred\<close>
  is an attribute of the new node under that name, in place of an attribute of \<open>c\<close>
  with that name. So when the property map of \<open>c\<close> holds typed names only, the
  attribute map and the property map of the new node are those of \<open>c\<close>.
\<close>

theorem createNode_fixed_rewrap:
  assumes "\<not> variadic (classArity E k)"
  shows "(\<exists>r. createNode E k children bag txt = Inr r \<and>
            childNodes r =
              map (map_option (cleanChild E)) (takeWhile (\<lambda>c. c \<noteq> None) children) @
              trailing txt) \<and>
         (\<not> isInferred E c \<longrightarrow> cleanChild E c = c) \<and>
         (isInferred E c \<longrightarrow>
            kind (cleanChild E c) = ''mrow'' \<and>
            childNodes (cleanChild E c) = childNodes c \<and>
            (\<forall>x. typedName x \<longrightarrow>
               map_of (properties (cleanChild E c)) x = map_of (properties c) x) \<and>
            (\<forall>x. \<not> typedName x \<longrightarrow> map_of (properties (cleanChild E c)) x = None) \<and>
            (\<forall>x. map_of (attributes (cleanChild E c)) x =
               (if map_of (properties c) x \<noteq> None \<and> attributeName ''mrow'' x
                then map_of (properties c) x else map_of (attributes c) x)) \<and>
            (typedProperties c \<longrightarrow>
               attributes (cleanChild E c) = attributes c \<and>
               map_of (properties (cleanChild E c)) = map_of (properties c)))"
proof -
  have "\<exists>r. createNode E k children bag txt = Inr r \<and>
            childNodes r =
              map (map_option (cleanChild E)) (takeWhile (\<lambda>c. c \<noteq> None) children) @
              trailing txt"
    by (simp add: createNode_fixed [OF assms] childNodes_setProperties cleanChildren_takeWhile)
  moreover have "\<not> isInferred E c \<longrightarrow> cleanChild E c = c"
    by (simp add: cleanChild_plain)
  moreover have "isInferred E c \<longrightarrow>
            kind (cleanChild E c) = ''mrow'' \<and>
            childNodes (cleanChild E c) = childNodes c \<and>
            (\<forall>x. typedName x \<longrightarrow>
               map_of (properties (cleanChild E c)) x = map_of (properties c) x) \<and>
            (\<forall>x. \<not> typedName x \<longrightarrow> map_of (properties (cleanChild E c)) x = None) \<and>
            (\<forall>x. map_of (attributes (cleanChild E c)) x =
               (if map_of (properties c) x \<noteq> None \<and> attributeName ''mrow'' x
                then map_of (properties c) x else map_of (attributes c) x)) \<and>
            (typedProperties c \<longrightarrow>
               attributes (cleanChild E c) = attributes c \<and>
               map_of (properties (cleanChild E c)) = map_of (properties c))"
    using cleanChild_inferred [of E c] cleanChild_inferred_general [of E c]
    by (intro impI conjI allI) simp_all
  ultimately show ?thesis by (intro conjI)
qed

text \<open>
  An \<^verbatim>\<open>mfrac\<close> (arity 2) whose first child is an inferred row with an attribute and a
  typed property.
\<close>

theorem createNode_fixed_rewrap_witness:
  "\<not> variadic (classArity mathjax ''mfrac'') \<and>
   isInferred mathjax
     (Mml ''inferredMrow'' [(''mathcolor'', Str ''red'')] [(''texprimestyle'', Bool True)]
        None [Some (TextNode ''a'')]) \<and>
   typedName ''texprimestyle'' \<and>
   typedProperties
     (Mml ''inferredMrow'' [(''mathcolor'', Str ''red'')] [(''texprimestyle'', Bool True)]
        None [Some (TextNode ''a'')]) \<and>
   (\<exists>r. createNode mathjax ''mfrac''
          [Some (Mml ''inferredMrow'' [(''mathcolor'', Str ''red'')]
                   [(''texprimestyle'', Bool True)] None [Some (TextNode ''a'')]),
           Some (Mml ''mn'' [] [] None [Some (TextNode ''2'')])] [] None = Inr r \<and>
        childNodes r =
          [Some (cleanChild mathjax
                   (Mml ''inferredMrow'' [(''mathcolor'', Str ''red'')]
                      [(''texprimestyle'', Bool True)] None [Some (TextNode ''a'')])),
           Some (cleanChild mathjax (Mml ''mn'' [] [] None [Some (TextNode ''2'')]))]) \<and>
   kind (cleanChild mathjax
           (Mml ''inferredMrow'' [(''mathcolor'', Str ''red'')]
              [(''texprimestyle'', Bool True)] None [Some (TextNode ''a'')])) = ''mrow'' \<and>
   attributes (cleanChild mathjax
           (Mml ''inferredMrow'' [(''mathcolor'', Str ''red'')]
              [(''texprimestyle'', Bool True)] None [Some (TextNode ''a'')])) =
     [(''mathcolor'', Str ''red'')] \<and>
   map_of (properties (cleanChild mathjax
           (Mml ''inferredMrow'' [(''mathcolor'', Str ''red'')]
              [(''texprimestyle'', Bool True)] None [Some (TextNode ''a'')]))) ''texprimestyle'' =
     Some (Bool True)"
proof -
  let ?c = "Mml ''inferredMrow'' [(''mathcolor'', Str ''red'')] [(''texprimestyle'', Bool True)]
                None [Some (TextNode ''a'')]"
  let ?d = "Mml ''mn'' [] [] None [Some (TextNode ''2'')]"
  have h: "\<not> variadic (classArity mathjax ''mfrac'')"
    by (simp add: mathjax_def variadic_def)
  have i: "isInferred mathjax ?c"
    by (simp add: mathjax_def)
  have n: "typedName ''texprimestyle''"
    by (simp add: typedName_def attrs_def)
  have t: "typedProperties ?c"
    by (simp add: typedProperties_def typedName_def attrs_def)
  show ?thesis
    using h i n t createNode_fixed_rewrap [OF h, of "[Some ?c, Some ?d]" "[]" None ?c]
    by (auto simp add: trailing_def)
qed

text \<open>
  Claim C8 says that for a kind of fixed arity \<open>n\<close> the node \<^verbatim>\<open>createNode\<close> returns has
  at most \<open>n\<close> children. \<^verbatim>\<open>createNode\<close> reads the arity only to choose between its two
  branches: with three children and a trailing text, a node of kind \<^verbatim>\<open>msub\<close>
  (arity 2) is returned with four children.
\<close>

theorem createNode_arity_counterexample:
  "classArity mathjax ''msub'' = Finite 2 \<and> \<not> variadic (classArity mathjax ''msub'') \<and>
   createNode mathjax ''msub''
     [Some (Mml ''mi'' [] [] None [Some (TextNode ''a'')]),
      Some (Mml ''mi'' [] [] None [Some (TextNode ''b'')]),
      Some (Mml ''mi'' [] [] None [Some (TextNode ''c'')])] [] (Some (TextNode ''d'')) =
   Inr (Mml ''msub'' [] [] None
     [Some (Mml ''mi'' [] [] None [Some (TextNode ''a'')]),
      Some (Mml ''mi'' [] [] None [Some (TextNode ''b'')]),
      Some (Mml ''mi'' [] [] None [Some (TextNode ''c'')]),
      Some (TextNode ''d'')])"
  by (simp add: mathjax_def variadic_def createNode_def create_def arity_def cleanChild_def
      setProperties_def)

text \<open>
  Claim C8, amended. For a kind of fixed arity, \<^verbatim>\<open>createNode\<close> returns a node, and
  the number of its children is the number of supplied children that precede the
  first absent entry, plus one when a trailing text is given; so it is at most the
  number of supplied children plus one. The arity does not bound it.
\<close>

theorem createNode_fixed_length:
  assumes "\<not> variadic (classArity E k)"
  shows "\<exists>r. createNode E k children bag txt = Inr r \<and>
             length (childNodes r) =
               length (takeWhile (\<lambda>c. c \<noteq> None) children) + length (trailing txt) \<and>
             length (childNodes r) \<le> length children + 1"
proof -
  have "length (takeWhile (\<lambda>c. c \<noteq> None) children) \<le> length children"
    by (rule length_takeWhile_le)
  moreover have "length (trailing txt) \<le> 1"
    by (simp add: trailing_def split: option.splits)
  ultimately show ?thesis
    by (simp add: createNode_fixed [OF assms] childNodes_setProperties length_cleanChildren)
qed

text \<open>
  An \<^verbatim>\<open>mfrac\<close> given a child, an absent entry, another child and a trailing text has
  two children.
\<close>

theorem createNode_fixed_length_witness:
  "\<not> variadic (classArity mathjax ''mfrac'') \<and>
   (\<exists>r. createNode mathjax ''mfrac'' [Some (TextNode ''a''), None, Some (TextNode ''b'')] []
          (Some (TextNode ''c'')) = Inr r \<and>
        length (childNodes r) = 2)"
proof -
  have h: "\<not> variadic (classArity mathjax ''mfrac'')"
    by (simp add: mathjax_def variadic_def)
  show ?thesis
    using h createNode_fixed_length [OF h, of "[Some (TextNode ''a''), None, Some (TextNode ''b'')]" "[]"
        "Some (TextNode ''c'')"]
    by (auto simp add: trailing_def)
qed

text \<open>
  Claim C10. For a kind of fixed arity, when the supplied sequence is \<open>ns\<close> (present
  children), then an absent entry, then anything, \<^verbatim>\<open>createNode\<close> processes and
  attaches the children \<open>ns\<close> before the first absent entry and nothing of what
  follows it (only the trailing text, when given, comes after them).
\<close>

theorem createNode_fixed_stops_at_absent:
  assumes "\<not> variadic (classArity E k)"
  shows "\<exists>r. createNode E k (map Some ns @ None # rest) bag txt = Inr r \<and>
             childNodes r = map (\<lambda>c. Some (cleanChild E c)) ns @ trailing txt"
  by (simp add: createNode_fixed [OF assms] childNodes_setProperties cleanChildren_append_None)

text \<open>
  An \<^verbatim>\<open>mfrac\<close> given a child, an absent entry and another child keeps the first
  child only.
\<close>

theorem createNode_fixed_stops_at_absent_witness:
  "\<not> variadic (classArity mathjax ''mfrac'') \<and>
   (\<exists>r. createNode mathjax ''mfrac''
          [Some (Mml ''mi'' [] [] None [Some (TextNode ''a'')]), None,
           Some (Mml ''mn'' [] [] None [Some (TextNode ''2'')])] [] None = Inr r \<and>
        childNodes r = [Some (Mml ''mi'' [] [] None [Some (TextNode ''a'')])])"
proof -
  have h: "\<not> variadic (classArity mathjax ''mfrac'')"
    by (simp add: mathjax_def variadic_def)
  have c: "cleanChild mathjax (Mml ''mi'' [] [] None [Some (TextNode ''a'')]) =
           Mml ''mi'' [] [] None [Some (TextNode ''a'')]"
    by (simp add: cleanChild_def mathjax_def)
  show ?thesis
    using h c createNode_fixed_stops_at_absent [OF h, of "[Mml ''mi'' [] [] None [Some (TextNode ''a'')]]"
        "[Some (Mml ''mn'' [] [] None [Some (TextNode ''2'')])]" "[]" None]
    by (simp add: trailing_def)
qed

subsection \<open>getForm\<close>

lemma getForm_loop_find:
  "getForm_loop M mo forms =
     (case find (\<lambda>form. OPTABLE M form (moText M mo) \<noteq> None) forms of
        None \<Rightarrow> None
      | Some form \<Rightarrow> OPTABLE M form (moText M mo))"
  by (induction forms) (auto split: option.splits)

text \<open>
  Claim C7. \<^verbatim>\<open>getForm\<close> on a node that is not of kind \<^verbatim>\<open>mo\<close> is \<^verbatim>\<open>null\<close>, whatever the
  operator table holds; on an \<^verbatim>\<open>mo\<close> node it is the table's entry for the first
  candidate form, in the order of \<^verbatim>\<open>getForms\<close>, that has an entry for the node's
  text, and \<^verbatim>\<open>null\<close> when no candidate form has one.
\<close>

theorem getForm_first_hit:
  "getForm M node =
     (if kind node = ''mo''
      then (case find (\<lambda>form. OPTABLE M form (moText M node) \<noteq> None) (getForms M node) of
              None \<Rightarrow> None
            | Some form \<Rightarrow> OPTABLE M form (moText M node))
      else None)"
  by (simp add: getForm_def isType_def isKind_def getForm_loop_find)

subsection \<open>cleanSubSup: positions in a tree\<close>

lemma slot_Nil [simp]: "slot [] i = None"
  by (simp add: slot_def)

lemma slot_map: "slot (map (map_option f) cs) i = map_option f (slot cs i)"
  by (simp add: slot_def)

lemma slot_in_set: "slot cs i = Some x \<Longrightarrow> Some x \<in> set cs"
  by (metis nth_mem option.distinct(1) slot_def)

lemma nodeAt_append:
  "nodeAt root (ref @ q) = (case nodeAt root ref of None \<Rightarrow> None | Some n \<Rightarrow> nodeAt n q)"
  by (induction ref arbitrary: root) (auto split: option.splits)

lemma replaceAt_append:
  "nodeAt root ref = Some n \<Longrightarrow> replaceAt root (ref @ q) x = replaceAt root ref (replaceAt n q x)"
proof (induction ref arbitrary: root)
  case Nil
  then show ?case by simp
next
  case (Cons i ref)
  then show ?case by (cases root) (auto split: option.splits)
qed

lemma nodeAt_replaceAt:
  "nodeAt root ref = Some n \<Longrightarrow> nodeAt (replaceAt root ref x) ref = Some x"
proof (induction ref arbitrary: root)
  case Nil
  then show ?case by simp
next
  case (Cons i ref)
  then show ?case by (cases root) (auto simp add: slot_def split: option.splits if_splits)
qed

lemma replaceAt_replaceAt:
  "nodeAt root ref = Some n \<Longrightarrow> replaceAt (replaceAt root ref x) ref y = replaceAt root ref y"
proof (induction ref arbitrary: root)
  case Nil
  then show ?case by simp
next
  case (Cons i ref)
  then show ?case by (cases root) (auto simp add: slot_def split: option.splits if_splits)
qed

lemma replaceAt_same: "nodeAt root ref = Some n \<Longrightarrow> replaceAt root ref n = root"
proof (induction ref arbitrary: root)
  case Nil
  then show ?case by simp
next
  case (Cons i ref)
  then show ?case
    by (cases root) (auto simp add: slot_def list_update_same_conv split: option.splits if_splits)
qed

lemma replaceAt_child:
  "replaceAt (Mml k a p t (pre @ Some c # rest)) [length pre] x = Mml k a p t (pre @ Some x # rest)"
  by (simp add: slot_def nth_append)

lemma nodeAt_child:
  "nodeAt (Mml k a p t (pre @ Some c # rest)) [length pre] = Some c"
  by (simp add: slot_def nth_append)

subsection \<open>cleanSubSup: the loop over the collected nodes is a bottom-up rewrite\<close>

text \<open>
  The traversal collects the positions in reverse pre-order, so the loop meets the
  descendants of a node, and what lies to its right, before the node itself. Handling
  the positions collected below a node therefore amounts to rewriting its subtree
  bottom-up in place. No reference dangles, and \<^verbatim>\<open>createNode\<close>, called on two entries,
  does not throw.
\<close>

lemma newNode_Inr: "\<exists>m. newNode E n = Inr m"
proof -
  obtain r1 where "createNode E ''msub'' [slot (childNodes n) (subsupBase E), slot (childNodes n) (subsupSub E)] [] None = Inr r1"
    using createNode_pair by blast
  moreover obtain r2 where "createNode E ''msup'' [slot (childNodes n) (subsupBase E), slot (childNodes n) (subsupSup E)] [] None = Inr r2"
    using createNode_pair by blast
  moreover obtain r3 where "createNode E ''munder'' [slot (childNodes n) (underoverBase E), slot (childNodes n) (underoverUnder E)] [] None = Inr r3"
    using createNode_pair by blast
  moreover obtain r4 where "createNode E ''mover'' [slot (childNodes n) (underoverBase E), slot (childNodes n) (underoverOver E)] [] None = Inr r4"
    using createNode_pair by blast
  ultimately show ?thesis
    by (simp add: newNode_def Let_def)
qed

lemma newNode_rewriteOne: "incomplete E n \<Longrightarrow> newNode E n = Inr (rewriteOne E n)"
  using newNode_Inr [of E n] by (auto simp add: rewriteOne_def)

lemma newNode_cases:
  "newNode E n =
     Inr (copyAttributes n
       (if kind n = ''msubsup'' then
          (if slot (childNodes n) (subsupSub E) \<noteq> None
           then Mml ''msub'' [] [] None
                  (if variadic (classArity E ''msub'')
                   then [slot (childNodes n) (subsupBase E), slot (childNodes n) (subsupSub E)]
                   else cleanChildren E
                          [slot (childNodes n) (subsupBase E), slot (childNodes n) (subsupSub E)])
           else Mml ''msup'' [] [] None
                  (if variadic (classArity E ''msup'')
                   then [slot (childNodes n) (subsupBase E), slot (childNodes n) (subsupSup E)]
                   else cleanChildren E
                          [slot (childNodes n) (subsupBase E), slot (childNodes n) (subsupSup E)]))
        else
          (if slot (childNodes n) (underoverUnder E) \<noteq> None
           then Mml ''munder'' [] [] None
                  (if variadic (classArity E ''munder'')
                   then [slot (childNodes n) (underoverBase E),
                         slot (childNodes n) (underoverUnder E)]
                   else cleanChildren E
                          [slot (childNodes n) (underoverBase E),
                           slot (childNodes n) (underoverUnder E)])
           else Mml ''mover'' [] [] None
                  (if variadic (classArity E ''mover'')
                   then [slot (childNodes n) (underoverBase E),
                         slot (childNodes n) (underoverOver E)]
                   else cleanChildren E
                          [slot (childNodes n) (underoverBase E),
                           slot (childNodes n) (underoverOver E)]))))"
  by (simp add: newNode_def Let_def isKind_def createNode_pair_eq)

lemma incomplete_map:
  "incomplete E (Mml k a p t (map (map_option f) cs)) = incomplete E (Mml k a p t cs)"
  by (simp add: incomplete_def isKind_def slot_map)

lemma rewriteLoop_step:
  assumes "nodeAt root ref = Some n"
  shows "rewriteLoop E (collect E n ref d) root = rewriteLoop E d (replaceAt root ref (rewriteOne E n))"
proof (cases "incomplete E n")
  case True
  then show ?thesis
    using assms newNode_rewriteOne [OF True]
    by (cases ref) (simp_all add: collect_def)
next
  case False
  have "replaceAt root ref n = root"
    using assms by (rule replaceAt_same)
  then show ?thesis using False by (simp add: collect_def rewriteOne_def)
qed

lemma walkChildren_rewriteLoop:
  assumes sub: "\<And>c root ref d. Some c \<in> set cs \<Longrightarrow> nodeAt root ref = Some c \<Longrightarrow>
            rewriteLoop E (walkTree (collect E) c ref d) root =
            rewriteLoop E d (replaceAt root ref (bottomUp (rewriteOne E) c))"
    and at: "nodeAt root ref = Some (Mml k a p t (pre @ cs))"
  shows "rewriteLoop E (walkChildren (collect E) cs ref (length pre) d) root =
         rewriteLoop E d
           (replaceAt root ref
              (Mml k a p t (pre @ map (map_option (bottomUp (rewriteOne E))) cs)))"
  using sub at
proof (induction cs arbitrary: pre d)
  case Nil
  then show ?case by (simp add: replaceAt_same)
next
  case (Cons c0 cs)
  show ?case
  proof (cases c0)
    case None
    have "rewriteLoop E (walkChildren (collect E) cs ref (length (pre @ [None])) d) root =
          rewriteLoop E d (replaceAt root ref
            (Mml k a p t ((pre @ [None]) @ map (map_option (bottomUp (rewriteOne E))) cs)))"
      using Cons.prems None by (intro Cons.IH) simp_all
    then show ?thesis using None by simp
  next
    case (Some c)
    let ?bu = "bottomUp (rewriteOne E)"
    let ?i = "length pre"
    let ?X = "walkTree (collect E) c (ref @ [?i]) d"
    let ?rest = "map (map_option ?bu) cs"
    let ?N1 = "Mml k a p t (pre @ Some c # ?rest)"
    let ?root1 = "replaceAt root ref ?N1"
    have step1: "rewriteLoop E (walkChildren (collect E) cs ref (length (pre @ [Some c])) ?X) root =
          rewriteLoop E ?X (replaceAt root ref
            (Mml k a p t ((pre @ [Some c]) @ ?rest)))"
      using Cons.prems Some by (intro Cons.IH) simp_all
    have at1: "nodeAt ?root1 ref = Some ?N1"
      using Cons.prems(2) by (rule nodeAt_replaceAt)
    have atc: "nodeAt ?root1 (ref @ [?i]) = Some c"
      by (simp add: nodeAt_append at1 nodeAt_child del: nodeAt.simps)
    have step2: "rewriteLoop E ?X ?root1 = rewriteLoop E d (replaceAt ?root1 (ref @ [?i]) (?bu c))"
      using Cons.prems(1) [of c ?root1 "ref @ [?i]" d] Some atc by simp
    have "replaceAt ?root1 (ref @ [?i]) (?bu c) = replaceAt ?root1 ref (replaceAt ?N1 [?i] (?bu c))"
      using at1 by (rule replaceAt_append)
    also have "\<dots> = replaceAt root ref (replaceAt ?N1 [?i] (?bu c))"
      using Cons.prems(2) by (rule replaceAt_replaceAt)
    also have "replaceAt ?N1 [?i] (?bu c) = Mml k a p t (pre @ Some (?bu c) # ?rest)"
      by (rule replaceAt_child)
    finally have eq: "replaceAt ?root1 (ref @ [?i]) (?bu c) =
        replaceAt root ref (Mml k a p t (pre @ Some (?bu c) # ?rest))" .
    show ?thesis
      using step1 step2 eq Some by simp
  qed
qed

lemma walkTree_rewriteLoop:
  "nodeAt root ref = Some n \<Longrightarrow>
   rewriteLoop E (walkTree (collect E) n ref d) root =
   rewriteLoop E d (replaceAt root ref (bottomUp (rewriteOne E) n))"
proof (induction n arbitrary: root ref d)
  case (Mml k a p t cs)
  let ?bu = "bottomUp (rewriteOne E)"
  let ?n = "Mml k a p t cs"
  let ?n' = "Mml k a p t (map (map_option ?bu) cs)"
  have sub: "\<And>c root ref d. Some c \<in> set cs \<Longrightarrow> nodeAt root ref = Some c \<Longrightarrow>
            rewriteLoop E (walkTree (collect E) c ref d) root =
            rewriteLoop E d (replaceAt root ref (?bu c))"
    using Mml.IH by (meson option.set_intros)
  have at0: "nodeAt root ref = Some (Mml k a p t ([] @ cs))"
    using Mml.prems by simp
  have "rewriteLoop E (walkChildren (collect E) cs ref (length ([] :: node option list)) (collect E ?n ref d)) root =
        rewriteLoop E (collect E ?n ref d) (replaceAt root ref (Mml k a p t ([] @ map (map_option ?bu) cs)))"
    using sub at0 by (rule walkChildren_rewriteLoop)
  then have s1: "rewriteLoop E (walkTree (collect E) ?n ref d) root =
        rewriteLoop E (collect E ?n ref d) (replaceAt root ref ?n')"
    by simp
  have c: "collect E ?n ref d = collect E ?n' ref d"
    by (simp add: collect_def incomplete_map)
  have at1: "nodeAt (replaceAt root ref ?n') ref = Some ?n'"
    using Mml.prems by (rule nodeAt_replaceAt)
  have "rewriteLoop E (collect E ?n' ref d) (replaceAt root ref ?n') =
        rewriteLoop E d (replaceAt (replaceAt root ref ?n') ref (rewriteOne E ?n'))"
    using at1 by (rule rewriteLoop_step)
  also have "replaceAt (replaceAt root ref ?n') ref (rewriteOne E ?n') = replaceAt root ref (rewriteOne E ?n')"
    using Mml.prems by (rule replaceAt_replaceAt)
  finally show ?case using s1 c by simp
next
  case (TextNode s)
  then show ?case using rewriteLoop_step [OF TextNode] by simp
qed

lemma cleanSubSup_bottomUp: "cleanSubSup E root = Inr (bottomUp (rewriteOne E) root)"
  using walkTree_rewriteLoop [of root "[]" root E "[]"] by (simp add: cleanSubSup_def)

subsection \<open>cleanSubSup: the node that replaces a collected node\<close>

lemma rewriteOne_msub:
  assumes "kind n = ''msubsup''"
    and "slot (childNodes n) (subsupBase E) = Some b"
    and "slot (childNodes n) (subsupSub E) = Some s"
    and "slot (childNodes n) (subsupSup E) = None"
    and "\<not> isInferred E b" and "\<not> isInferred E s"
  shows "kind (rewriteOne E n) = ''msub'' \<and> childNodes (rewriteOne E n) = [Some b, Some s]"
proof -
  have "incomplete E n" using assms by (simp add: incomplete_def isKind_def)
  then have "rewriteOne E n = (case newNode E n of Inr m \<Rightarrow> m | Inl e \<Rightarrow> n)"
    by (simp add: rewriteOne_def)
  then show ?thesis
    using assms
    by (simp add: newNode_cases kind_copyAttributes childNodes_copyAttributes cleanChild_plain)
qed

lemma rewriteOne_msup:
  assumes "kind n = ''msubsup''"
    and "slot (childNodes n) (subsupBase E) = Some b"
    and "slot (childNodes n) (subsupSub E) = None"
    and "slot (childNodes n) (subsupSup E) = Some s"
    and "\<not> isInferred E b" and "\<not> isInferred E s"
  shows "kind (rewriteOne E n) = ''msup'' \<and> childNodes (rewriteOne E n) = [Some b, Some s]"
proof -
  have "incomplete E n" using assms by (simp add: incomplete_def isKind_def)
  then have "rewriteOne E n = (case newNode E n of Inr m \<Rightarrow> m | Inl e \<Rightarrow> n)"
    by (simp add: rewriteOne_def)
  then show ?thesis
    using assms
    by (simp add: newNode_cases kind_copyAttributes childNodes_copyAttributes cleanChild_plain)
qed

lemma rewriteOne_munder:
  assumes "kind n = ''munderover''"
    and "slot (childNodes n) (underoverBase E) = Some b"
    and "slot (childNodes n) (underoverUnder E) = Some s"
    and "slot (childNodes n) (underoverOver E) = None"
    and "\<not> isInferred E b" and "\<not> isInferred E s"
  shows "kind (rewriteOne E n) = ''munder'' \<and> childNodes (rewriteOne E n) = [Some b, Some s]"
proof -
  have "incomplete E n" using assms by (simp add: incomplete_def isKind_def)
  then have "rewriteOne E n = (case newNode E n of Inr m \<Rightarrow> m | Inl e \<Rightarrow> n)"
    by (simp add: rewriteOne_def)
  then show ?thesis
    using assms
    by (simp add: newNode_cases kind_copyAttributes childNodes_copyAttributes cleanChild_plain)
qed

lemma rewriteOne_mover:
  assumes "kind n = ''munderover''"
    and "slot (childNodes n) (underoverBase E) = Some b"
    and "slot (childNodes n) (underoverUnder E) = None"
    and "slot (childNodes n) (underoverOver E) = Some s"
    and "\<not> isInferred E b" and "\<not> isInferred E s"
  shows "kind (rewriteOne E n) = ''mover'' \<and> childNodes (rewriteOne E n) = [Some b, Some s]"
proof -
  have "incomplete E n" using assms by (simp add: incomplete_def isKind_def)
  then have "rewriteOne E n = (case newNode E n of Inr m \<Rightarrow> m | Inl e \<Rightarrow> n)"
    by (simp add: rewriteOne_def)
  then show ?thesis
    using assms
    by (simp add: newNode_cases kind_copyAttributes childNodes_copyAttributes cleanChild_plain)
qed

text \<open>
  Claim C1 says that every \<^verbatim>\<open>msubsup\<close> node missing exactly one of its two script
  slots becomes an \<^verbatim>\<open>msub\<close> or \<^verbatim>\<open>msup\<close> node with the children (base, script). When
  the base slot is absent as well, the loop of \<^verbatim>\<open>createNode\<close> stops at once and the
  script is lost: an \<^verbatim>\<open>msubsup\<close> with no base and a subscript becomes an \<^verbatim>\<open>msub\<close>
  without children.
\<close>

theorem cleanSubSup_base_absent_counterexample:
  "cleanSubSup mathjax
     (Mml ''msubsup'' [] [] None [None, Some (Mml ''mn'' [] [] None [Some (TextNode ''2'')])]) =
   Inr (Mml ''msub'' [] [] None [])"
  by (simp add: cleanSubSup_bottomUp rewriteOne_def incomplete_def isKind_def slot_def
      mathjax_def newNode_cases variadic_def copyAttributes_def getAllProperties_def)

text \<open>
  Claim C1, amended. \<^verbatim>\<open>cleanSubSup\<close> returns the tree rewritten bottom-up: every
  node, once its children are done, is replaced by \<open>rewriteOne\<close> of it, in the slot
  of its parent that held it, or as the returned root when it is the root. For a
  node \<open>n\<close> whose base slot holds \<open>b\<close> and which lacks exactly one of its two script
  slots, the other holding \<open>s\<close>, where neither \<open>b\<close> nor \<open>s\<close> is an inferred node:
  \<open>rewriteOne\<close> of an \<^verbatim>\<open>msubsup\<close> is an \<^verbatim>\<open>msub\<close> with children \<open>(b, s)\<close> when the
  subscript is the one present and an \<^verbatim>\<open>msup\<close> with children \<open>(b, s)\<close> when the
  superscript is; of a \<^verbatim>\<open>munderover\<close> it is a \<^verbatim>\<open>munder\<close> or a \<^verbatim>\<open>mover\<close> in the same
  way.
\<close>

theorem cleanSubSup_rewrites:
  assumes "\<not> isInferred E b" and "\<not> isInferred E s"
  shows "cleanSubSup E root = Inr (bottomUp (rewriteOne E) root) \<and>
         (kind n = ''msubsup'' \<and> slot (childNodes n) (subsupBase E) = Some b \<and>
          slot (childNodes n) (subsupSub E) = Some s \<and> slot (childNodes n) (subsupSup E) = None
          \<longrightarrow> kind (rewriteOne E n) = ''msub'' \<and> childNodes (rewriteOne E n) = [Some b, Some s]) \<and>
         (kind n = ''msubsup'' \<and> slot (childNodes n) (subsupBase E) = Some b \<and>
          slot (childNodes n) (subsupSub E) = None \<and> slot (childNodes n) (subsupSup E) = Some s
          \<longrightarrow> kind (rewriteOne E n) = ''msup'' \<and> childNodes (rewriteOne E n) = [Some b, Some s]) \<and>
         (kind n = ''munderover'' \<and> slot (childNodes n) (underoverBase E) = Some b \<and>
          slot (childNodes n) (underoverUnder E) = Some s \<and>
          slot (childNodes n) (underoverOver E) = None
          \<longrightarrow> kind (rewriteOne E n) = ''munder'' \<and> childNodes (rewriteOne E n) = [Some b, Some s]) \<and>
         (kind n = ''munderover'' \<and> slot (childNodes n) (underoverBase E) = Some b \<and>
          slot (childNodes n) (underoverUnder E) = None \<and>
          slot (childNodes n) (underoverOver E) = Some s
          \<longrightarrow> kind (rewriteOne E n) = ''mover'' \<and> childNodes (rewriteOne E n) = [Some b, Some s])"
  using assms rewriteOne_msub [of n E b s] rewriteOne_msup [of n E b s]
    rewriteOne_munder [of n E b s] rewriteOne_mover [of n E b s]
  by (simp add: cleanSubSup_bottomUp)

text \<open>
  An \<^verbatim>\<open>msubsup\<close> without subscript, inside a row: the row comes back with an
  \<^verbatim>\<open>msup\<close> in the same slot.
\<close>

theorem cleanSubSup_rewrites_witness:
  "\<not> isInferred mathjax (Mml ''mi'' [] [] None [Some (TextNode ''x'')]) \<and>
   \<not> isInferred mathjax (Mml ''mn'' [] [] None [Some (TextNode ''2'')]) \<and>
   cleanSubSup mathjax
     (Mml ''mrow'' [] [] None
        [Some (Mml ''msubsup'' [] [] None
                 [Some (Mml ''mi'' [] [] None [Some (TextNode ''x'')]), None,
                  Some (Mml ''mn'' [] [] None [Some (TextNode ''2'')])])]) =
   Inr (Mml ''mrow'' [] [] None
        [Some (Mml ''msup'' [] [] None
                 [Some (Mml ''mi'' [] [] None [Some (TextNode ''x'')]),
                  Some (Mml ''mn'' [] [] None [Some (TextNode ''2'')])])])"
proof -
  let ?b = "Mml ''mi'' [] [] None [Some (TextNode ''x'')]"
  let ?s = "Mml ''mn'' [] [] None [Some (TextNode ''2'')]"
  let ?n = "Mml ''msubsup'' [] [] None [Some ?b, None, Some ?s]"
  have hb: "\<not> isInferred mathjax ?b" and hs: "\<not> isInferred mathjax ?s"
    by (simp_all add: mathjax_def)
  have plain: "rewriteOne mathjax ?b = ?b" "rewriteOne mathjax ?s = ?s"
    "rewriteOne mathjax (TextNode ''x'') = TextNode ''x''"
    "rewriteOne mathjax (TextNode ''2'') = TextNode ''2''"
    "rewriteOne mathjax (Mml ''mrow'' [] [] None cs) = Mml ''mrow'' [] [] None cs" for cs
    by (simp_all add: rewriteOne_def incomplete_def isKind_def)
  have "rewriteOne mathjax ?n = Mml ''msup'' [] [] None [Some ?b, Some ?s]"
    by (simp add: rewriteOne_def incomplete_def isKind_def slot_def
      mathjax_def newNode_cases variadic_def copyAttributes_def getAllProperties_def cleanChild_def)
  then show ?thesis
    using hb hs cleanSubSup_rewrites [OF hb hs, of "Mml ''mrow'' [] [] None [Some ?n]" ?n] plain
    by simp
qed

lemma cleanChildren_base_only:
  "cleanChildren E [base, None] = (case base of None \<Rightarrow> [] | Some b \<Rightarrow> [Some (cleanChild E b)])"
  by (cases base) simp_all

text \<open>
  Claim C9 says that an \<^verbatim>\<open>msubsup\<close> lacking both script slots is replaced by an
  \<^verbatim>\<open>msup\<close> whose only child is the base child. When the base is an inferred node, the
  loop of \<^verbatim>\<open>createNode\<close> attaches a new \<^verbatim>\<open>mrow\<close> in its stead: the only child of the
  \<^verbatim>\<open>msup\<close> is that \<^verbatim>\<open>mrow\<close>, not the base.
\<close>

theorem cleanSubSup_both_missing_counterexample:
  "isInferred mathjax (Mml ''inferredMrow'' [] [] None [Some (TextNode ''a'')]) \<and>
   cleanSubSup mathjax
     (Mml ''msubsup'' [] [] None
        [Some (Mml ''inferredMrow'' [] [] None [Some (TextNode ''a'')])]) =
   Inr (Mml ''msup'' [] [] None [Some (Mml ''mrow'' [] [] None [Some (TextNode ''a'')])])"
  by (simp add: cleanSubSup_bottomUp rewriteOne_def incomplete_def isKind_def slot_def
      mathjax_def newNode_cases variadic_def copyAttributes_def getAllProperties_def
      cleanChild_def create_def getChildren_def)

text \<open>
  Claim C9, amended. Every node \<open>n\<close> of kind \<^verbatim>\<open>msubsup\<close> that lacks both its subscript
  and its superscript is collected, and the node that replaces it (\<open>rewriteOne\<close> of
  \<open>n\<close>, which \<^verbatim>\<open>cleanSubSup\<close> puts in its place) is of kind \<^verbatim>\<open>msup\<close>. With \<^verbatim>\<open>msup\<close> of
  fixed arity, the loop of \<^verbatim>\<open>createNode\<close> drops the absent superscript and the new
  node's children are: the base child alone when the base slot holds a node that is
  not inferred; a new \<^verbatim>\<open>mrow\<close> with the base's children alone when the base is an
  inferred node; none when the base slot is absent as well. (Were \<^verbatim>\<open>msup\<close> of
  variadic arity, the two entries, base slot and absent entry, would be attached as
  they are.) The same holds for \<^verbatim>\<open>munderover\<close> lacking both under and over, with
  \<^verbatim>\<open>mover\<close>.
\<close>

theorem cleanSubSup_both_missing:
  "cleanSubSup E root = Inr (bottomUp (rewriteOne E) root) \<and>
   (kind n = ''msubsup'' \<and> slot (childNodes n) (subsupSub E) = None \<and>
    slot (childNodes n) (subsupSup E) = None
    \<longrightarrow> incomplete E n \<and> kind (rewriteOne E n) = ''msup'' \<and>
        childNodes (rewriteOne E n) =
          (if variadic (classArity E ''msup'')
           then [slot (childNodes n) (subsupBase E), None]
           else case slot (childNodes n) (subsupBase E) of
                  None \<Rightarrow> []
                | Some b \<Rightarrow> [Some (cleanChild E b)])) \<and>
   (kind n = ''munderover'' \<and> slot (childNodes n) (underoverUnder E) = None \<and>
    slot (childNodes n) (underoverOver E) = None
    \<longrightarrow> incomplete E n \<and> kind (rewriteOne E n) = ''mover'' \<and>
        childNodes (rewriteOne E n) =
          (if variadic (classArity E ''mover'')
           then [slot (childNodes n) (underoverBase E), None]
           else case slot (childNodes n) (underoverBase E) of
                  None \<Rightarrow> []
                | Some b \<Rightarrow> [Some (cleanChild E b)])) \<and>
   (\<not> isInferred E c \<longrightarrow> cleanChild E c = c) \<and>
   (isInferred E c \<longrightarrow>
      kind (cleanChild E c) = ''mrow'' \<and> childNodes (cleanChild E c) = childNodes c)"
proof -
  have sup: "incomplete E n \<and> kind (rewriteOne E n) = ''msup'' \<and>
        childNodes (rewriteOne E n) =
          (if variadic (classArity E ''msup'')
           then [slot (childNodes n) (subsupBase E), None]
           else case slot (childNodes n) (subsupBase E) of
                  None \<Rightarrow> []
                | Some b \<Rightarrow> [Some (cleanChild E b)])"
    if "kind n = ''msubsup''" "slot (childNodes n) (subsupSub E) = None"
      "slot (childNodes n) (subsupSup E) = None"
  proof -
    have i: "incomplete E n" using that by (simp add: incomplete_def isKind_def)
    then have "rewriteOne E n = (case newNode E n of Inr m \<Rightarrow> m | Inl e \<Rightarrow> n)"
      by (simp add: rewriteOne_def)
    then show ?thesis
      using i that
      by (simp add: newNode_cases kind_copyAttributes childNodes_copyAttributes
          cleanChildren_base_only)
  qed
  have over: "incomplete E n \<and> kind (rewriteOne E n) = ''mover'' \<and>
        childNodes (rewriteOne E n) =
          (if variadic (classArity E ''mover'')
           then [slot (childNodes n) (underoverBase E), None]
           else case slot (childNodes n) (underoverBase E) of
                  None \<Rightarrow> []
                | Some b \<Rightarrow> [Some (cleanChild E b)])"
    if "kind n = ''munderover''" "slot (childNodes n) (underoverUnder E) = None"
      "slot (childNodes n) (underoverOver E) = None"
  proof -
    have i: "incomplete E n" using that by (simp add: incomplete_def isKind_def)
    then have "rewriteOne E n = (case newNode E n of Inr m \<Rightarrow> m | Inl e \<Rightarrow> n)"
      by (simp add: rewriteOne_def)
    then show ?thesis
      using i that
      by (simp add: newNode_cases kind_copyAttributes childNodes_copyAttributes
          cleanChildren_base_only)
  qed
  have plain: "\<not> isInferred E c \<longrightarrow> cleanChild E c = c"
    by (simp add: cleanChild_plain)
  have wrap: "isInferred E c \<longrightarrow>
      kind (cleanChild E c) = ''mrow'' \<and> childNodes (cleanChild E c) = childNodes c"
    using cleanChild_inferred(1,2) [of E c] by simp
  show ?thesis
    using sup over plain wrap cleanSubSup_bottomUp [of E root] by (intro conjI impI) simp_all
qed

text \<open>
  An \<^verbatim>\<open>msubsup\<close> that has a base only comes back as an \<^verbatim>\<open>msup\<close> with that base.
\<close>

theorem cleanSubSup_both_missing_witness:
  "kind (Mml ''msubsup'' [] [] None [Some (Mml ''mi'' [] [] None [Some (TextNode ''x'')])]) =
     ''msubsup'' \<and>
   slot [Some (Mml ''mi'' [] [] None [Some (TextNode ''x'')])] (subsupSub mathjax) = None \<and>
   slot [Some (Mml ''mi'' [] [] None [Some (TextNode ''x'')])] (subsupSup mathjax) = None \<and>
   \<not> isInferred mathjax (Mml ''mi'' [] [] None [Some (TextNode ''x'')]) \<and>
   cleanSubSup mathjax
     (Mml ''msubsup'' [] [] None [Some (Mml ''mi'' [] [] None [Some (TextNode ''x'')])]) =
     Inr (rewriteOne mathjax
            (Mml ''msubsup'' [] [] None [Some (Mml ''mi'' [] [] None [Some (TextNode ''x'')])])) \<and>
   kind (rewriteOne mathjax
           (Mml ''msubsup'' [] [] None [Some (Mml ''mi'' [] [] None [Some (TextNode ''x'')])])) =
     ''msup'' \<and>
   childNodes (rewriteOne mathjax
           (Mml ''msubsup'' [] [] None [Some (Mml ''mi'' [] [] None [Some (TextNode ''x'')])])) =
     [Some (Mml ''mi'' [] [] None [Some (TextNode ''x'')])]"
proof -
  let ?b = "Mml ''mi'' [] [] None [Some (TextNode ''x'')]"
  let ?n = "Mml ''msubsup'' [] [] None [Some ?b]"
  have v: "\<not> variadic (classArity mathjax ''msup'')"
    by (simp add: mathjax_def variadic_def)
  have h3: "\<not> isInferred mathjax ?b" by (simp add: mathjax_def)
  have plain: "rewriteOne mathjax ?b = ?b" "rewriteOne mathjax (TextNode ''x'') = TextNode ''x''"
    by (simp_all add: rewriteOne_def incomplete_def isKind_def)
  have sl: "slot [Some ?b] (subsupBase mathjax) = Some ?b" "slot [Some ?b] (subsupSub mathjax) = None"
    "slot [Some ?b] (subsupSup mathjax) = None"
    by (simp_all add: slot_def mathjax_def)
  show ?thesis
    using v h3 cleanSubSup_both_missing [of mathjax ?n ?n ?b] plain sl
    by simp
qed

lemma rewriteOne_state:
  assumes "incomplete E n"
  shows "typedName x \<Longrightarrow> map_of (properties (rewriteOne E n)) x = map_of (properties n) x"
    and "texClass (rewriteOne E n) = map_of (properties n) ''texClass''"
    and "typedProperties n \<Longrightarrow> attributes (rewriteOne E n) = attributes n"
    and "typedProperties n \<Longrightarrow> map_of (properties (rewriteOne E n)) = map_of (properties n)"
    and "typedProperties n \<Longrightarrow> texClass (rewriteOne E n) = None"
proof -
  have r: "rewriteOne E n = (case newNode E n of Inr m \<Rightarrow> m | Inl e \<Rightarrow> n)"
    using assms by (simp add: rewriteOne_def)
  have p: "map_of (properties (copyAttributes n (Mml k [] [] None cs))) x = map_of (properties n) x"
    if "typedName x" for k cs
    using that by (rule copyAttributes_typedName)
  show "typedName x \<Longrightarrow> map_of (properties (rewriteOne E n)) x = map_of (properties n) x"
    using p by (simp add: r newNode_cases)
  show "texClass (rewriteOne E n) = map_of (properties n) ''texClass''"
    by (simp add: r newNode_cases copyAttributes_texClass)
  have q: "attributes (copyAttributes n (Mml k [] [] None cs)) = attributes n \<and>
        map_of (properties (copyAttributes n (Mml k [] [] None cs))) = map_of (properties n) \<and>
        texClass (copyAttributes n (Mml k [] [] None cs)) = None"
    if "typedProperties n" "k \<noteq> ''mo''" "k \<noteq> ''mstyle''" for k cs
    using copyAttributes_typed [OF that] by simp
  show "typedProperties n \<Longrightarrow> attributes (rewriteOne E n) = attributes n"
    and "typedProperties n \<Longrightarrow> map_of (properties (rewriteOne E n)) = map_of (properties n)"
    and "typedProperties n \<Longrightarrow> texClass (rewriteOne E n) = None"
    using q by (simp_all add: r newNode_cases)
qed

text \<open>
  Claim C3 says that the node replacing a rewritten node has the old node's
  attributes, typed properties and \<^verbatim>\<open>texClass\<close>. The field \<^verbatim>\<open>texClass\<close> is not among
  the properties that \<^verbatim>\<open>copyAttributes\<close> passes on: an \<^verbatim>\<open>msubsup\<close> with \<^verbatim>\<open>texClass\<close> 3
  is replaced by an \<^verbatim>\<open>msub\<close> whose \<^verbatim>\<open>texClass\<close> is \<^verbatim>\<open>null\<close>.
\<close>

theorem cleanSubSup_texClass_counterexample:
  "cleanSubSup mathjax
     (Mml ''msubsup'' [(''mathcolor'', Str ''red'')] [(''movesupsub'', Bool True)] (Some (Num 3))
        [Some (Mml ''mi'' [] [] None [Some (TextNode ''x'')]),
         Some (Mml ''mn'' [] [] None [Some (TextNode ''2'')])]) =
   Inr (Mml ''msub'' [(''mathcolor'', Str ''red'')] [(''movesupsub'', Bool True)] None
        [Some (Mml ''mi'' [] [] None [Some (TextNode ''x'')]),
         Some (Mml ''mn'' [] [] None [Some (TextNode ''2'')])])"
  by (simp add: cleanSubSup_bottomUp rewriteOne_def incomplete_def isKind_def slot_def
      mathjax_def newNode_cases variadic_def copyAttributes_def getAllProperties_def
      cleanChild_def setProperties_def setProperties_step_def attrs_def)

text \<open>
  Claim C3, amended. For every node \<open>n\<close> that \<^verbatim>\<open>cleanSubSup\<close> collects, the node
  that replaces it (\<open>rewriteOne\<close> of \<open>n\<close>, which \<^verbatim>\<open>cleanSubSup\<close> puts in its place) has
  every typed property of \<open>n\<close> with the same value, and its \<^verbatim>\<open>texClass\<close> is the value
  of the property named \<^verbatim>\<open>texClass\<close> of \<open>n\<close>, \<^verbatim>\<open>null\<close> if there is none. When the
  property map of \<open>n\<close> holds typed names only, as the data model has it, the new
  node's attribute map and property map are those of \<open>n\<close>, and its \<^verbatim>\<open>texClass\<close> is
  \<^verbatim>\<open>null\<close>: the old node's \<^verbatim>\<open>texClass\<close> is not copied.
\<close>

theorem cleanSubSup_copies_state:
  assumes "incomplete E n"
  shows "cleanSubSup E root = Inr (bottomUp (rewriteOne E) root) \<and>
         newNode E n = Inr (rewriteOne E n) \<and>
         (\<forall>x. typedName x \<longrightarrow>
            map_of (properties (rewriteOne E n)) x = map_of (properties n) x) \<and>
         texClass (rewriteOne E n) = map_of (properties n) ''texClass'' \<and>
         (typedProperties n \<longrightarrow>
            attributes (rewriteOne E n) = attributes n \<and>
            map_of (properties (rewriteOne E n)) = map_of (properties n) \<and>
            texClass (rewriteOne E n) = None)"
  using rewriteOne_state [OF assms] newNode_rewriteOne [OF assms]
  by (simp add: cleanSubSup_bottomUp)

text \<open>
  The node of the counterexample: its attribute and its typed property are kept,
  its \<^verbatim>\<open>texClass\<close> is not.
\<close>

theorem cleanSubSup_copies_state_witness:
  "incomplete mathjax
     (Mml ''msubsup'' [(''mathcolor'', Str ''red'')] [(''movesupsub'', Bool True)] (Some (Num 3))
        [Some (Mml ''mi'' [] [] None [Some (TextNode ''x'')]),
         Some (Mml ''mn'' [] [] None [Some (TextNode ''2'')])]) \<and>
   typedProperties
     (Mml ''msubsup'' [(''mathcolor'', Str ''red'')] [(''movesupsub'', Bool True)] (Some (Num 3))
        [Some (Mml ''mi'' [] [] None [Some (TextNode ''x'')]),
         Some (Mml ''mn'' [] [] None [Some (TextNode ''2'')])]) \<and>
   attributes (rewriteOne mathjax
     (Mml ''msubsup'' [(''mathcolor'', Str ''red'')] [(''movesupsub'', Bool True)] (Some (Num 3))
        [Some (Mml ''mi'' [] [] None [Some (TextNode ''x'')]),
         Some (Mml ''mn'' [] [] None [Some (TextNode ''2'')])])) = [(''mathcolor'', Str ''red'')] \<and>
   map_of (properties (rewriteOne mathjax
     (Mml ''msubsup'' [(''mathcolor'', Str ''red'')] [(''movesupsub'', Bool True)] (Some (Num 3))
        [Some (Mml ''mi'' [] [] None [Some (TextNode ''x'')]),
         Some (Mml ''mn'' [] [] None [Some (TextNode ''2'')])]))) ''movesupsub'' = Some (Bool True) \<and>
   texClass (rewriteOne mathjax
     (Mml ''msubsup'' [(''mathcolor'', Str ''red'')] [(''movesupsub'', Bool True)] (Some (Num 3))
        [Some (Mml ''mi'' [] [] None [Some (TextNode ''x'')]),
         Some (Mml ''mn'' [] [] None [Some (TextNode ''2'')])])) = None"
proof -
  let ?n = "Mml ''msubsup'' [(''mathcolor'', Str ''red'')] [(''movesupsub'', Bool True)] (Some (Num 3))
        [Some (Mml ''mi'' [] [] None [Some (TextNode ''x'')]),
         Some (Mml ''mn'' [] [] None [Some (TextNode ''2'')])]"
  have h1: "incomplete mathjax ?n"
    by (simp add: incomplete_def isKind_def slot_def mathjax_def)
  have h2: "typedProperties ?n"
    by (simp add: typedProperties_def typedName_def attrs_def)
  show ?thesis
    using h1 h2 cleanSubSup_copies_state [OF h1, of ?n] by simp
qed

subsection \<open>cleanSubSup: idempotence\<close>

text \<open>
  The replacement of a collected node is of kind \<^verbatim>\<open>msub\<close>, \<^verbatim>\<open>msup\<close>, \<^verbatim>\<open>munder\<close> or
  \<^verbatim>\<open>mover\<close>, and the rows \<^verbatim>\<open>createNode\<close> makes of inferred children are of kind
  \<^verbatim>\<open>mrow\<close>: none of them is collected again.
\<close>

lemma complete_children:
  "complete E c \<Longrightarrow> \<forall>ch \<in> set (childNodes c). \<forall>x \<in> set_option ch. complete E x"
  by (cases c) simp_all

lemma complete_copyAttributes:
  assumes "k \<noteq> ''msubsup''" and "k \<noteq> ''munderover''"
    and "\<forall>c \<in> set cs. \<forall>x \<in> set_option c. complete E x"
  shows "complete E (copyAttributes old (Mml k a p t cs))"
proof -
  obtain a' p' t' where "copyAttributes old (Mml k a p t cs) = Mml k a' p' t' cs"
    using copyAttributes_Mml by blast
  then show ?thesis using assms by (simp add: incomplete_def isKind_def)
qed

lemma complete_cleanChild: "complete E c \<Longrightarrow> complete E (cleanChild E c)"
  using complete_children [of E c]
  by (simp add: cleanChild_def create_def getChildren_def complete_copyAttributes)

lemma complete_cleanChildren:
  "\<forall>c \<in> set xs. \<forall>x \<in> set_option c. complete E x \<Longrightarrow>
   \<forall>c \<in> set (cleanChildren E xs). \<forall>x \<in> set_option c. complete E x"
  by (induction E xs rule: cleanChildren.induct) (simp_all add: complete_cleanChild)

lemma complete_slots:
  assumes "\<forall>c \<in> set cs. \<forall>x \<in> set_option c. complete E x"
  shows "\<forall>c \<in> set [slot cs i, slot cs j]. \<forall>x \<in> set_option c. complete E x"
proof -
  have "complete E x" if "slot cs k = Some x" for k x
    using assms slot_in_set [OF that] by auto
  then show ?thesis by auto
qed

lemma complete_rewriteOne:
  assumes "\<forall>c \<in> set (childNodes n). \<forall>x \<in> set_option c. complete E x"
  shows "complete E (rewriteOne E n)"
proof (cases "incomplete E n")
  case False
  then show ?thesis using assms by (cases n) (simp_all add: rewriteOne_def)
next
  case True
  have pair: "\<forall>c \<in> set [slot (childNodes n) i, slot (childNodes n) j]. \<forall>x \<in> set_option c. complete E x" for i j
    using assms by (rule complete_slots)
  have clean: "\<forall>c \<in> set (cleanChildren E [slot (childNodes n) i, slot (childNodes n) j]). \<forall>x \<in> set_option c. complete E x" for i j
    using pair by (rule complete_cleanChildren)
  have "complete E (copyAttributes n (Mml k [] [] None
          (if v then [slot (childNodes n) i, slot (childNodes n) j]
           else cleanChildren E [slot (childNodes n) i, slot (childNodes n) j])))"
    if "k \<noteq> ''msubsup''" "k \<noteq> ''munderover''" for k v i j
  proof (cases v)
    case True
    show ?thesis
      unfolding if_P [OF True] using that pair [of i j] by (rule complete_copyAttributes)
  next
    case False
    show ?thesis
      unfolding if_not_P [OF False] using that clean [of i j] by (rule complete_copyAttributes)
  qed
  then show ?thesis
    using True by (simp add: rewriteOne_def newNode_cases)
qed

lemma complete_bottomUp: "complete E (bottomUp (rewriteOne E) n)"
proof (induction n)
  case (Mml k a p t cs)
  have "\<forall>c \<in> set (childNodes (Mml k a p t (map (map_option (bottomUp (rewriteOne E))) cs))).
          \<forall>x \<in> set_option c. complete E x"
    using Mml.IH by (auto simp add: option.set_map)
  then show ?case
    using complete_rewriteOne by simp
next
  case (TextNode s)
  then show ?case by (simp add: rewriteOne_def incomplete_def isKind_def)
qed

lemma walkChildren_complete:
  assumes "\<And>c ref d. Some c \<in> set cs \<Longrightarrow> walkTree (collect E) c ref d = d"
  shows "walkChildren (collect E) cs ref i d = d"
  using assms
proof (induction cs arbitrary: i d)
  case Nil
  then show ?case by simp
next
  case (Cons c cs)
  then show ?case by (cases c) simp_all
qed

lemma walkTree_complete: "complete E n \<Longrightarrow> walkTree (collect E) n ref d = d"
proof (induction n arbitrary: ref d)
  case (Mml k a p t cs)
  have "\<And>c ref d. Some c \<in> set cs \<Longrightarrow> walkTree (collect E) c ref d = d"
    using Mml.IH Mml.prems by (metis complete.simps(1) option.set_intros)
  then have "walkChildren (collect E) cs ref 0 d = d"
    by (rule walkChildren_complete)
  moreover have "collect E (Mml k a p t cs) ref d = d"
    using Mml.prems by (simp add: collect_def)
  ultimately show ?case by simp
next
  case (TextNode s)
  then show ?case by (simp add: collect_def incomplete_def isKind_def)
qed

text \<open>
  Claim C2. For every tree, \<^verbatim>\<open>cleanSubSup\<close> returns a tree, and a second run on that
  tree collects nothing and returns it unchanged.
\<close>

theorem cleanSubSup_idempotent:
  "\<exists>t'. cleanSubSup E t = Inr t' \<and> cleanSubSup E t' = Inr t' \<and>
        walkTree (collect E) t' [] [] = []"
proof -
  let ?t' = "bottomUp (rewriteOne E) t"
  have "walkTree (collect E) ?t' [] [] = []"
    using complete_bottomUp by (rule walkTree_complete)
  moreover from this have "cleanSubSup E ?t' = Inr ?t'"
    by (simp add: cleanSubSup_def)
  ultimately show ?thesis
    by (simp add: cleanSubSup_bottomUp)
qed

end
